theory Spec2Isabelle
  imports Complex_Main "HOL-Library.Word" "HOL-Library.Log_Nat"
begin

section \<open>Arrays, sample values and exceptions\<close>

text \<open>
  A two-dimensional \<open>numpy.ndarray\<close>: its shape and its samples in row-major order.
  An image is such an array with at least one row and one column whose sample list has
  \<open>rows * cols\<close> entries.
\<close>

record 'a ndarray =
  rows :: nat
  cols :: nat
  data :: "'a list"

definition shape :: "'a ndarray \<Rightarrow> nat \<times> nat" where
  "shape a = (rows a, cols a)"

definition is_image :: "'a ndarray \<Rightarrow> bool" where
  "is_image a \<longleftrightarrow> 0 < rows a \<and> 0 < cols a \<and> length (data a) = rows a * cols a"

definition map_ndarray :: "('a \<Rightarrow> 'b) \<Rightarrow> 'a ndarray \<Rightarrow> 'b ndarray" where
  "map_ndarray f a = \<lparr>rows = rows a, cols = cols a, data = map f (data a)\<rparr>"

definition full :: "nat \<Rightarrow> nat \<Rightarrow> 'a \<Rightarrow> 'a ndarray" where
  "full r c v = \<lparr>rows = r, cols = c, data = replicate (r * c) v\<rparr>"

definition empty_array :: "'a ndarray \<Rightarrow> bool" where
  "empty_array a \<longleftrightarrow> rows a * cols a = 0"

text \<open>
  The exceptions the program can meet: the two that \<open>read_dicom_files\<close> catches, the
  other ones a read can raise, \<open>ValueError\<close> of a numpy reduction over no samples,
  \<open>cv2.error\<close> of an OpenCV call and \<open>TypeError\<close> of an arithmetic operation on
  \<open>None\<close>.
\<close>

datatype exn =
  FileNotFoundError | InvalidDicomError | IsADirectoryError | PermissionError
  | AttributeError | ValueError | TypeError | cv2_error

text \<open>
  Samples of dtype \<open>uint8\<close> are \<open>8 word\<close>. Finite samples of the other dtypes the
  program meets (unsigned DICOM pixel data, \<open>float64\<close> halves of small integers) are
  held by their exact value, a rational number. On an unsigned dtype the differences
  \<open>image - minimum_value\<close> and \<open>maximum_value - minimum_value\<close> cannot wrap around;
  pixel data of a signed dtype whose range exceeds the dtype's is outside this model
  (the predicate \<open>half_integer_samples\<close> below names the samples inside it).
\<close>

definition uint8_value :: "8 word \<Rightarrow> rat" where
  "uint8_value w = of_int (uint w)"

section \<open>The Dixon separation\<close>

text \<open>
  \<open>cv2.add\<close> and \<open>cv2.subtract\<close> on two \<open>uint8\<close> arrays work sample by sample with
  saturation (\<open>saturate_cast<uchar>\<close>): a sum above 255 becomes 255, a difference below 0
  becomes 0. Operands of different sizes raise \<open>cv2.error\<close>; the sizes are compared
  before any sample is read. For two empty operands the call raises nothing and returns
  \<open>None\<close>.
\<close>

definition saturate_add :: "8 word \<Rightarrow> 8 word \<Rightarrow> 8 word" where
  "saturate_add x y = (if 255 < uint x + uint y then 255 else x + y)"

definition saturate_subtract :: "8 word \<Rightarrow> 8 word \<Rightarrow> 8 word" where
  "saturate_subtract x y = (if uint x - uint y < 0 then 0 else x - y)"

definition cv2_add :: "8 word ndarray \<Rightarrow> 8 word ndarray \<Rightarrow> exn + 8 word ndarray option" where
  "cv2_add a b =
     (if empty_array a \<and> empty_array b then Inr None
      else if shape a = shape b
      then Inr (Some \<lparr>rows = rows a, cols = cols a,
                      data = map2 saturate_add (data a) (data b)\<rparr>)
      else Inl cv2_error)"

definition cv2_subtract :: "8 word ndarray \<Rightarrow> 8 word ndarray \<Rightarrow> exn + 8 word ndarray option" where
  "cv2_subtract a b =
     (if empty_array a \<and> empty_array b then Inr None
      else if shape a = shape b
      then Inr (Some \<lparr>rows = rows a, cols = cols a,
                      data = map2 saturate_subtract (data a) (data b)\<rparr>)
      else Inl cv2_error)"

text \<open>
  \<open>array / 2\<close> on a \<open>uint8\<close> array is numpy's true division: a \<open>float64\<close> array.
  Half of an integer below 256 is a \<open>float64\<close> value, so the quotient is exact.
  \<open>None / 2\<close> raises \<open>TypeError\<close>.
\<close>

definition halve :: "8 word ndarray option \<Rightarrow> exn + rat ndarray" where
  "halve r =
     (case r of
        None \<Rightarrow> Inl TypeError
      | Some a \<Rightarrow> Inr (map_ndarray (\<lambda>w. uint8_value w / 2) a))"

text \<open>
  \<open>dixon_algorithm\<close>: the sum and its half, then the difference and its half. An
  exception of any of the four operations leaves the function at once.
\<close>

definition dixon_algorithm ::
  "8 word ndarray \<Rightarrow> 8 word ndarray \<Rightarrow> exn + (rat ndarray \<times> rat ndarray)" where
  "dixon_algorithm in_phase_image out_phase_image =
     (case cv2_add in_phase_image out_phase_image of
        Inl e \<Rightarrow> Inl e
      | Inr s \<Rightarrow>
          (case halve s of
             Inl e \<Rightarrow> Inl e
           | Inr water_image \<Rightarrow>
               (case cv2_subtract in_phase_image out_phase_image of
                  Inl e \<Rightarrow> Inl e
                | Inr d \<Rightarrow>
                    (case halve d of
                       Inl e \<Rightarrow> Inl e
                     | Inr fat_image \<Rightarrow> Inr (water_image, fat_image)))))"

text \<open>
  The same function with a log of its work on pixel data: every array operation that
  has run over the samples is written down, in order, with the number of samples it has
  processed. An operation that raises, or that returns \<open>None\<close>, has processed none.
  The second component is what \<open>dixon_algorithm\<close> returns or raises (lemma
  \<open>dixon_algorithm_log_result\<close>).
\<close>

datatype pixel_work = Added nat | Subtracted nat | Divided nat

definition dixon_algorithm_log ::
  "8 word ndarray \<Rightarrow> 8 word ndarray
   \<Rightarrow> pixel_work list \<times> (exn + (rat ndarray \<times> rat ndarray))" where
  "dixon_algorithm_log in_phase_image out_phase_image =
     (let n = rows in_phase_image * cols in_phase_image in
      case cv2_add in_phase_image out_phase_image of
        Inl e \<Rightarrow> ([], Inl e)
      | Inr s \<Rightarrow>
          (case halve s of
             Inl e \<Rightarrow> ([], Inl e)
           | Inr water_image \<Rightarrow>
               (case cv2_subtract in_phase_image out_phase_image of
                  Inl e \<Rightarrow> ([Added n, Divided n], Inl e)
                | Inr d \<Rightarrow>
                    (case halve d of
                       Inl e \<Rightarrow> ([Added n, Divided n], Inl e)
                     | Inr fat_image \<Rightarrow>
                         ([Added n, Divided n, Subtracted n, Divided n],
                          Inr (water_image, fat_image))))))"

text \<open>
  The separation as the specification words it: sum and difference in a range wide
  enough for every pair of 8-bit samples, nothing clamped.
\<close>

definition separate_spec :: "8 word ndarray \<Rightarrow> 8 word ndarray \<Rightarrow> rat ndarray \<times> rat ndarray" where
  "separate_spec a b =
     (\<lparr>rows = rows a, cols = cols a,
       data = map2 (\<lambda>x y. (uint8_value x + uint8_value y) / 2) (data a) (data b)\<rparr>,
      \<lparr>rows = rows a, cols = cols a,
       data = map2 (\<lambda>x y. (uint8_value x - uint8_value y) / 2) (data a) (data b)\<rparr>)"

text \<open>No sample of the pair is clamped: every sum fits 8 bits, no difference is negative.\<close>

definition no_clamping :: "8 word ndarray \<Rightarrow> 8 word ndarray \<Rightarrow> bool" where
  "no_clamping a b \<longleftrightarrow>
     list_all (\<lambda>(x, y). uint x + uint y \<le> 255 \<and> 0 \<le> uint x - uint y) (zip (data a) (data b))"

section \<open>Floating-point values inside the normalization\<close>

text \<open>
  The quotient array of \<open>min_max_normalization\<close> is \<open>float64\<close>. Its values are held
  exactly when finite, and the model keeps the non-finite values of IEEE 754, since the
  quotient of a constant image is \<open>0 / 0\<close>. The arithmetic below is IEEE's on these
  values (every zero is taken as \<open>+0\<close>; the only zero divisor of this program is
  \<open>maximum_value - minimum_value\<close>, which is \<open>+0\<close> when it is zero). Finite results
  are taken exactly, without the rounding of \<open>float64\<close>. For samples that are integers
  or halves of integers of at most 16 bits, as unsigned DICOM pixel data and the outputs
  of the separator are, the rounding does not show after the conversion to \<open>uint8\<close>: the
  error of the quotient and of the product by 255 stays below \<open>2^-44\<close>, a scaled value
  that is not an integer lies at least \<open>2^-16\<close> away from the integers, and one that is
  an integer is met exactly.
\<close>

datatype float64 = Finite rat | PInf | NInf | NaN

definition isnan :: "float64 \<Rightarrow> bool" where
  "isnan x \<longleftrightarrow> x = NaN"

fun fneg :: "float64 \<Rightarrow> float64" where
  "fneg (Finite a) = Finite (- a)"
| "fneg PInf = NInf"
| "fneg NInf = PInf"
| "fneg NaN = NaN"

fun fadd :: "float64 \<Rightarrow> float64 \<Rightarrow> float64" where
  "fadd NaN _ = NaN"
| "fadd _ NaN = NaN"
| "fadd (Finite a) (Finite b) = Finite (a + b)"
| "fadd PInf NInf = NaN"
| "fadd NInf PInf = NaN"
| "fadd PInf _ = PInf"
| "fadd NInf _ = NInf"
| "fadd (Finite a) y = y"

definition fsub :: "float64 \<Rightarrow> float64 \<Rightarrow> float64" where
  "fsub x y = fadd x (fneg y)"

fun fmul :: "float64 \<Rightarrow> float64 \<Rightarrow> float64" where
  "fmul NaN _ = NaN"
| "fmul _ NaN = NaN"
| "fmul (Finite a) (Finite b) = Finite (a * b)"
| "fmul (Finite a) y = (if a = 0 then NaN else if 0 < a then y else fneg y)"
| "fmul x (Finite b) = (if b = 0 then NaN else if 0 < b then x else fneg x)"
| "fmul x y = (if x = y then PInf else NInf)"

fun fdiv :: "float64 \<Rightarrow> float64 \<Rightarrow> float64" where
  "fdiv NaN _ = NaN"
| "fdiv _ NaN = NaN"
| "fdiv (Finite a) (Finite b) =
     (if b \<noteq> 0 then Finite (a / b)
      else if a = 0 then NaN else if 0 < a then PInf else NInf)"
| "fdiv (Finite a) y = Finite 0"
| "fdiv x (Finite b) = (if 0 \<le> b then x else fneg x)"
| "fdiv x y = NaN"

text \<open>IEEE comparisons: every comparison with \<open>NaN\<close> is false.\<close>

fun fless :: "float64 \<Rightarrow> float64 \<Rightarrow> bool" where
  "fless NaN _ = False"
| "fless _ NaN = False"
| "fless (Finite a) (Finite b) = (a < b)"
| "fless NInf y = (y \<noteq> NInf)"
| "fless x PInf = (x \<noteq> PInf)"
| "fless x y = False"

definition feq :: "float64 \<Rightarrow> float64 \<Rightarrow> bool" where
  "feq x y \<longleftrightarrow> \<not> isnan x \<and> \<not> isnan y \<and> x = y"

definition fle :: "float64 \<Rightarrow> float64 \<Rightarrow> bool" where
  "fle x y \<longleftrightarrow> fless x y \<or> feq x y"

section \<open>Min-max normalization\<close>

text \<open>
  \<open>np.min\<close> and \<open>np.max\<close> over the samples of the input: a reduction over no sample
  raises \<open>ValueError\<close>.
\<close>

fun amin :: "rat list \<Rightarrow> exn + rat" where
  "amin [] = Inl ValueError"
| "amin (x # xs) = Inr (fold min xs x)"

fun amax :: "rat list \<Rightarrow> exn + rat" where
  "amax [] = Inl ValueError"
| "amax (x # xs) = Inr (fold max xs x)"

text \<open>
  \<open>array.min()\<close> and \<open>array.max()\<close> over a \<open>float64\<close> array: numpy's reductions hand on
  a \<open>NaN\<close> once they meet one.
\<close>

definition np_minimum :: "float64 \<Rightarrow> float64 \<Rightarrow> float64" where
  "np_minimum x y = (if isnan x then x else if isnan y then y else if fless y x then y else x)"

definition np_maximum :: "float64 \<Rightarrow> float64 \<Rightarrow> float64" where
  "np_maximum x y = (if isnan x then x else if isnan y then y else if fless x y then y else x)"

fun float_min :: "float64 list \<Rightarrow> exn + float64" where
  "float_min [] = Inl ValueError"
| "float_min (x # xs) = Inr (fold (\<lambda>y acc. np_minimum acc y) xs x)"

fun float_max :: "float64 list \<Rightarrow> exn + float64" where
  "float_max [] = Inl ValueError"
| "float_max (x # xs) = Inr (fold (\<lambda>y acc. np_maximum acc y) xs x)"

text \<open>
  The elementwise quotient \<open>(image - minimum_value) / (maximum_value - minimum_value)\<close>:
  numpy's true division does not raise on a zero divisor, it yields \<open>NaN\<close> for \<open>0 / 0\<close>
  and an infinity otherwise (with a warning).
\<close>

definition true_divide :: "rat \<Rightarrow> rat \<Rightarrow> float64" where
  "true_divide a d = fdiv (Finite a) (Finite d)"

text \<open>
  \<open>np.interp(x, (xp0, xp1), (fp0, fp1))\<close> at one sample, following numpy's routine for
  two data points: a \<open>NaN\<close> sample is handed on; a sample beyond the last point takes
  \<open>fp1\<close>, one before the first takes \<open>fp0\<close>; a sample at a data point takes that point's
  value; any other sample is interpolated linearly.
\<close>

definition np_interp :: "float64 \<Rightarrow> float64 \<times> float64 \<Rightarrow> rat \<times> rat \<Rightarrow> float64" where
  "np_interp x xp fp =
     (case (xp, fp) of ((xp0, xp1), (fp0, fp1)) \<Rightarrow>
        if isnan x then x
        else if fless xp1 x then Finite fp1
        else if fless x xp0 then Finite fp0
        else if fle xp1 x then Finite fp1
        else if feq xp0 x then Finite fp0
        else
          (let slope = fdiv (Finite (fp1 - fp0)) (fsub xp1 xp0);
               res = fadd (fmul slope (fsub x xp0)) (Finite fp0)
           in if isnan res
              then (let res2 = fadd (fmul slope (fsub x xp1)) (Finite fp1)
                    in if isnan res2 \<and> fp0 = fp1 then Finite fp0 else res2)
              else res))"

text \<open>
  \<open>astype(np.uint8)\<close> on a \<open>float64\<close> sample: C's conversion, which drops the fraction
  when the result fits 8 bits. \<open>NaN\<close> becomes 0 (numpy warns of an invalid value in
  the cast and does not raise). For an infinity and for a finite value out of range,
  which this program never converts, the result is taken from the parameter \<open>u\<close>.
\<close>

definition truncate :: "rat \<Rightarrow> int" where
  "truncate r = (if 0 \<le> r then \<lfloor>r\<rfloor> else \<lceil>r\<rceil>)"

definition astype_uint8 :: "(float64 \<Rightarrow> 8 word) \<Rightarrow> float64 \<Rightarrow> 8 word" where
  "astype_uint8 u x =
     (case x of
        Finite r \<Rightarrow> if - 1 < r \<and> r < 256 then word_of_int (truncate r) else u x
      | NaN \<Rightarrow> 0
      | _ \<Rightarrow> u x)"

text \<open>
  The first four lines of \<open>min_max_normalization\<close>: the array before the final
  conversion to \<open>uint8\<close>.
\<close>

definition min_max_float :: "rat ndarray \<Rightarrow> exn + float64 ndarray" where
  "min_max_float img =
     (case amin (data img) of
        Inl e \<Rightarrow> Inl e
      | Inr minimum_value \<Rightarrow>
          (case amax (data img) of
             Inl e \<Rightarrow> Inl e
           | Inr maximum_value \<Rightarrow>
               (let normalized_image =
                      map (\<lambda>v. true_divide (v - minimum_value) (maximum_value - minimum_value))
                        (data img)
                in case float_min normalized_image of
                     Inl e \<Rightarrow> Inl e
                   | Inr lo \<Rightarrow>
                       (case float_max normalized_image of
                          Inl e \<Rightarrow> Inl e
                        | Inr hi \<Rightarrow>
                            Inr \<lparr>rows = rows img, cols = cols img,
                                 data = map (\<lambda>x. np_interp x (lo, hi) (0, 255))
                                          normalized_image\<rparr>))))"

definition min_max_normalization :: "(float64 \<Rightarrow> 8 word) \<Rightarrow> rat ndarray \<Rightarrow> exn + 8 word ndarray" where
  "min_max_normalization u img =
     (case min_max_float img of
        Inl e \<Rightarrow> Inl e
      | Inr normalized_image \<Rightarrow> Inr (map_ndarray (astype_uint8 u) normalized_image))"

text \<open>
  The normalization as the specification words it, for an image that is not constant:
  \<open>round((v - min) / (max - min) * 255)\<close>, clamped to \<open>[0, 255]\<close>.
\<close>

definition normalize_spec :: "rat ndarray \<Rightarrow> 8 word ndarray" where
  "normalize_spec img =
     (let lo = Min (set (data img)); hi = Max (set (data img))
      in map_ndarray
           (\<lambda>v. word_of_int (max 0 (min 255 (round ((v - lo) / (hi - lo) * 255))))) img)"

definition constant_image :: "'a ndarray \<Rightarrow> bool" where
  "constant_image img \<longleftrightarrow> is_image img \<and> list_all (\<lambda>v. v = hd (data img)) (data img)"

definition non_constant_image :: "'a ndarray \<Rightarrow> bool" where
  "non_constant_image img \<longleftrightarrow> is_image img \<and> list_ex (\<lambda>v. v \<noteq> hd (data img)) (data img)"

text \<open>
  The samples on which the exact quotient and product of \<open>min_max_float\<close> give, after
  the conversion to \<open>uint8\<close>, what \<open>float64\<close> arithmetic gives: integers and integers
  plus one half, from 0 to 65535. They are the pixel data of an unsigned dtype of 8 or
  16 bits and the \<open>float64\<close> halves that \<open>dixon_algorithm\<close> returns.
\<close>

definition half_integer_samples :: "rat ndarray \<Rightarrow> bool" where
  "half_integer_samples img \<longleftrightarrow>
     list_all (\<lambda>v. of_int \<lfloor>2 * v\<rfloor> = 2 * v \<and> 0 \<le> v \<and> v \<le> 65535) (data img)"

section \<open>Histogram equalization and the enhancer\<close>

text \<open>
  \<open>cv2.equalizeHist\<close> computes in C's \<open>float\<close>. A \<open>float32\<close> result is the exact
  result rounded to a significand of 24 bits, ties to even: for \<open>x\<close> with
  \<open>2^e \<le> |x| < 2^(e+1)\<close> (\<open>e\<close> is \<open>exponent |x|\<close>) the nearest multiple of
  \<open>2^(e-23)\<close>. The values met in \<open>cv2.equalizeHist\<close>, for an image of fewer than
  \<open>2^31\<close> samples, are far from \<open>float32\<close>'s overflow and underflow thresholds, which
  are not modelled.
\<close>

definition round_half_even :: "rat \<Rightarrow> int" where
  "round_half_even r =
     (let f = \<lfloor>r\<rfloor>; d = r - of_int f
      in if d < 1 / 2 then f else if 1 / 2 < d then f + 1 else if even f then f else f + 1)"

definition exponent :: "rat \<Rightarrow> int" where
  "exponent x = (if 1 \<le> x then bitlen \<lfloor>x\<rfloor> - 1 else - bitlen (\<lceil>1 / x\<rceil> - 1))"

definition round_to_precision :: "nat \<Rightarrow> rat \<Rightarrow> rat" where
  "round_to_precision p x =
     (if x = 0 then 0
      else (let s = 2 powi (exponent \<bar>x\<bar> - int p + 1)
            in of_int (round_half_even (x / s)) * s))"

definition float32 :: "rat \<Rightarrow> rat" where
  "float32 x = round_to_precision 24 x"

text \<open>
  \<open>cv2.equalizeHist\<close> on a \<open>uint8\<close> image, following OpenCV's routine: the histogram
  over 256 bins; the first bin \<open>i\<close> that is not empty; an image whose samples all fall
  into that bin is filled with \<open>i\<close>; otherwise the lookup table is 0 at \<open>i\<close> and, above
  it, \<open>saturate_cast<uchar>(sum * scale)\<close> for the running sum of the histogram and
  \<open>float scale = 255.f / (total - hist[i])\<close>; every sample is sent through the table.
  The divisor and \<open>sum\<close> are converted to \<open>float\<close>, and the quotient and the product
  are \<open>float\<close> operations. \<open>saturate_cast<uchar>\<close> of a \<open>float\<close> is \<open>cvRound\<close>, which
  rounds to the nearest integer, ties to even, and then the saturation to \<open>[0, 255]\<close>.
  The entries of the table below \<open>i\<close> are never written and never read; the model holds
  0 there. For an empty image OpenCV does nothing; the enhancer never hands one over
  (\<open>np.min\<close> has raised before), and the model leaves it as it is.
\<close>

definition calcHist :: "8 word list \<Rightarrow> nat \<Rightarrow> nat" where
  "calcHist xs i = length (filter (\<lambda>p. unat p = i) xs)"

function first_bin :: "(nat \<Rightarrow> nat) \<Rightarrow> nat \<Rightarrow> nat" where
  "first_bin hist i = (if i < 256 \<and> hist i = 0 then first_bin hist (Suc i) else i)"
  by pat_completeness auto
termination
  by (relation "measure (\<lambda>(hist, i). 256 - i)") auto

declare first_bin.simps [simp del]

definition cvRound :: "rat \<Rightarrow> int" where
  "cvRound r = round_half_even r"

definition saturate_uchar :: "rat \<Rightarrow> 8 word" where
  "saturate_uchar r = word_of_int (max 0 (min 255 (cvRound r)))"

fun lut_loop :: "(nat \<Rightarrow> nat) \<Rightarrow> rat \<Rightarrow> nat list \<Rightarrow> nat \<Rightarrow> (nat \<Rightarrow> 8 word) \<Rightarrow> (nat \<Rightarrow> 8 word)" where
  "lut_loop hist scale [] acc lut = lut"
| "lut_loop hist scale (i # bins) acc lut =
     (let acc' = acc + hist i
      in lut_loop hist scale bins acc'
           (lut(i := saturate_uchar (float32 (float32 (of_nat acc') * scale)))))"

definition equalize_lut :: "8 word list \<Rightarrow> nat \<Rightarrow> 8 word" where
  "equalize_lut xs =
     (let hist = calcHist xs; i = first_bin hist 0; total = length xs;
          scale = float32 (255 / float32 (of_nat (total - hist i)))
      in lut_loop hist scale [Suc i ..< 256] 0 (\<lambda>_. 0))"

definition equalizeHist :: "8 word ndarray \<Rightarrow> 8 word ndarray" where
  "equalizeHist src =
     (if data src = [] then src
      else
        (let hist = calcHist (data src); i = first_bin hist 0; total = length (data src)
         in if hist i = total then map_ndarray (\<lambda>_. of_nat i) src
            else map_ndarray (\<lambda>p. equalize_lut (data src) (unat p)) src))"

definition enhance_images ::
  "(float64 \<Rightarrow> 8 word) \<Rightarrow> rat ndarray \<Rightarrow> rat ndarray \<Rightarrow> exn + (8 word ndarray \<times> 8 word ndarray)" where
  "enhance_images u water_image fat_image =
     (case min_max_normalization u water_image of
        Inl e \<Rightarrow> Inl e
      | Inr normalized_water_image \<Rightarrow>
          (case min_max_normalization u fat_image of
             Inl e \<Rightarrow> Inl e
           | Inr normalized_fat_image \<Rightarrow>
               Inr (equalizeHist normalized_water_image, equalizeHist normalized_fat_image)))"



section \<open>Reading the files and the driver\<close>

text \<open>
  \<open>pydicom.dcmread(path).pixel_array\<close> is the program's only access to the file system;
  the model takes its outcome for each path as the parameter \<open>fs\<close>: the pixel array, or
  the exception the read raises. \<open>read_dicom_files\<close> catches \<open>FileNotFoundError\<close> and
  \<open>InvalidDicomError\<close> and hands on every other exception. Its \<open>print\<close> calls are left
  out.
\<close>

type_synonym file_system = "string \<Rightarrow> exn + rat ndarray"

definition caught :: "exn \<Rightarrow> bool" where
  "caught e \<longleftrightarrow> e = FileNotFoundError \<or> e = InvalidDicomError"

definition read_dicom_files ::
  "file_system \<Rightarrow> string \<Rightarrow> string \<Rightarrow> exn + (rat ndarray option \<times> rat ndarray option)" where
  "read_dicom_files fs in_phase_file out_phase_file =
     (case fs in_phase_file of
        Inl e \<Rightarrow> if caught e then Inr (None, None) else Inl e
      | Inr in_phase_image \<Rightarrow>
          (case fs out_phase_file of
             Inl e \<Rightarrow> if caught e then Inr (None, None) else Inl e
           | Inr out_phase_image \<Rightarrow> Inr (Some in_phase_image, Some out_phase_image)))"

definition BASE_DIR :: string where
  "BASE_DIR = ''transverse_heart (complete data)/CPTAC-CCRCC/C3N-02262/08-17-2000-NA-MR JB-70639/5.000000-Ax T1 DualEcho outin Phase-97241''"

definition in_phase_file :: string where
  "in_phase_file = BASE_DIR @ ''/1-06.dcm''"

definition out_phase_file :: string where
  "out_phase_file = BASE_DIR @ ''/1-05.dcm''"

text \<open>
  \<open>main\<close>. \<open>cv2.GaussianBlur\<close> is the parameter \<open>blur\<close>. The result \<open>Inr None\<close> is the
  early \<open>return\<close> after a failed read, \<open>Inr (Some d)\<close> the call of \<open>display_images\<close> on
  the six images \<open>d\<close> (what the display then does is outside the model), \<open>Inl e\<close> an
  exception that leaves \<open>main\<close>.
\<close>

type_synonym displayed =
  "8 word ndarray \<times> 8 word ndarray \<times> 8 word ndarray \<times> 8 word ndarray
   \<times> 8 word ndarray \<times> 8 word ndarray"

definition main ::
  "file_system \<Rightarrow> (float64 \<Rightarrow> 8 word) \<Rightarrow> (8 word ndarray \<Rightarrow> 8 word ndarray)
   \<Rightarrow> exn + displayed option" where
  "main fs u blur =
     (case read_dicom_files fs in_phase_file out_phase_file of
        Inl e \<Rightarrow> Inl e
      | Inr (raw_in_phase_image, raw_out_phase_image) \<Rightarrow>
     if raw_in_phase_image = None \<or> raw_out_phase_image = None then Inr None
     else
     (case min_max_normalization u (the raw_in_phase_image) of
        Inl e \<Rightarrow> Inl e
      | Inr in_phase_image \<Rightarrow>
     (case min_max_normalization u (the raw_out_phase_image) of
        Inl e \<Rightarrow> Inl e
      | Inr out_phase_image \<Rightarrow>
     (let gaussian_in_phase_image = blur in_phase_image;
          gaussian_out_phase_image = blur out_phase_image
      in
     (case dixon_algorithm in_phase_image out_phase_image of
        Inl e \<Rightarrow> Inl e
      | Inr (water_image, fat_image) \<Rightarrow>
     (case dixon_algorithm gaussian_in_phase_image gaussian_out_phase_image of
        Inl e \<Rightarrow> Inl e
      | Inr (gauss_water_image, gauss_fat_image) \<Rightarrow>
     (case enhance_images u water_image fat_image of
        Inl e \<Rightarrow> Inl e
      | Inr (equalized_water_image, equalized_fat_image) \<Rightarrow>
     (case enhance_images u gauss_water_image gauss_fat_image of
        Inl e \<Rightarrow> Inl e
      | Inr (equalized_gauss_water_image, equalized_gauss_fat_image) \<Rightarrow>
          Inr (Some (in_phase_image, out_phase_image, equalized_water_image,
                     equalized_fat_image, equalized_gauss_water_image,
                     equalized_gauss_fat_image))))))))))"

section \<open>Facts about the separation\<close>

lemma uint_saturate_add: "uint (saturate_add x y) = min (uint x + uint y) 255"
proof (cases "255 < uint x + uint y")
  case True
  then show ?thesis by (simp add: saturate_add_def)
next
  case False
  have "uint (x + y) = (uint x + uint y) mod 2 ^ 8"
    by (simp add: uint_word_ariths)
  also have "\<dots> = uint x + uint y"
    using False by simp
  finally show ?thesis using False
    by (simp add: saturate_add_def)
qed

lemma uint_saturate_subtract: "uint (saturate_subtract x y) = max (uint x - uint y) 0"
proof (cases "uint x - uint y < 0")
  case True
  then show ?thesis by (simp add: saturate_subtract_def)
next
  case False
  then have "y \<le> x"
    by (simp add: word_le_def)
  then have "uint (x - y) = uint x - uint y"
    by (rule uint_minus_simple_alt [THEN iffD1])
  with False show ?thesis
    by (simp add: saturate_subtract_def)
qed

lemma uint_le_255: "uint (x :: 8 word) \<le> 255"
  using uint_bounded [of x] by simp

lemma is_image_not_empty: "is_image a \<Longrightarrow> \<not> empty_array a"
  by (simp add: is_image_def empty_array_def)

lemma dixon_algorithm_log_result: "snd (dixon_algorithm_log a b) = dixon_algorithm a b"
  by (simp add: dixon_algorithm_log_def dixon_algorithm_def Let_def split: sum.splits)

lemma dixon_algorithm_log_same_shape:
  assumes "is_image a" "is_image b" "shape a = shape b"
  shows "dixon_algorithm_log a b =
           ([Added (rows a * cols a), Divided (rows a * cols a),
             Subtracted (rows a * cols a), Divided (rows a * cols a)],
            Inr (\<lparr>rows = rows a, cols = cols a,
                  data = map (\<lambda>w. uint8_value w / 2) (map2 saturate_add (data a) (data b))\<rparr>,
                 \<lparr>rows = rows a, cols = cols a,
                  data = map (\<lambda>w. uint8_value w / 2)
                           (map2 saturate_subtract (data a) (data b))\<rparr>))"
  using assms(3) is_image_not_empty [OF assms(1)]
  by (simp add: dixon_algorithm_log_def cv2_add_def cv2_subtract_def halve_def map_ndarray_def
      Let_def)

lemma dixon_algorithm_same_shape:
  assumes "is_image a" "is_image b" "shape a = shape b"
  shows "dixon_algorithm a b =
           Inr (\<lparr>rows = rows a, cols = cols a,
                 data = map (\<lambda>w. uint8_value w / 2) (map2 saturate_add (data a) (data b))\<rparr>,
                \<lparr>rows = rows a, cols = cols a,
                 data = map (\<lambda>w. uint8_value w / 2)
                          (map2 saturate_subtract (data a) (data b))\<rparr>)"
  using dixon_algorithm_log_result [of a b]
  by (simp add: dixon_algorithm_log_same_shape [OF assms])

lemma is_image_same_length:
  assumes "is_image a" "is_image b" "shape a = shape b"
  shows "length (data b) = length (data a)" "length (data a) = rows a * cols a"
  using assms by (simp_all add: is_image_def shape_def)

lemma uint8_value_saturate_add:
  "uint8_value (saturate_add x y) = of_int (min (uint x + uint y) 255)"
  by (simp only: uint8_value_def uint_saturate_add)

lemma uint8_value_saturate_subtract:
  "uint8_value (saturate_subtract x y) = of_int (max (uint x - uint y) 0)"
  by (simp only: uint8_value_def uint_saturate_subtract)

lemma uint8_value_bounds: "0 \<le> uint8_value w" "uint8_value w \<le> 255"
  using uint_le_255 [of w] by (simp_all add: uint8_value_def del: of_int_uint)

text \<open>
  Claim C1, as the code has it. For two \<open>uint8\<close> images of one shape the separator
  returns, at every position, water \<open>= min (in_phase + out_phase, 255) / 2\<close> and fat
  \<open>= max (in_phase - out_phase, 0) / 2\<close>: the sum and the difference are saturated to
  8 bits by \<open>cv2.add\<close> and \<open>cv2.subtract\<close> before the division, so the separator does
  clamp and the fat channel is never negative.
\<close>

theorem dixon_algorithm_saturates:
  assumes "is_image a" "is_image b" "shape a = shape b"
  shows "\<exists>water fat. dixon_algorithm a b = Inr (water, fat)
           \<and> shape water = shape a \<and> shape fat = shape a
           \<and> length (data water) = rows a * cols a \<and> length (data fat) = rows a * cols a
           \<and> (\<forall>i < rows a * cols a.
                 data water ! i = of_int (min (uint (data a ! i) + uint (data b ! i)) 255) / 2
               \<and> data fat ! i = of_int (max (uint (data a ! i) - uint (data b ! i)) 0) / 2)"
proof -
  note len = is_image_same_length [OF assms]
  show ?thesis
    unfolding dixon_algorithm_same_shape [OF assms]
    using len
    by (simp add: shape_def uint8_value_saturate_add uint8_value_saturate_subtract)
qed

theorem dixon_algorithm_saturates_witness:
  "is_image \<lparr>rows = 1, cols = 2, data = [200, 50 :: 8 word]\<rparr>
   \<and> is_image \<lparr>rows = 1, cols = 2, data = [100, 100 :: 8 word]\<rparr>
   \<and> shape \<lparr>rows = 1, cols = 2, data = [200, 50 :: 8 word]\<rparr>
       = shape \<lparr>rows = 1, cols = 2, data = [100, 100 :: 8 word]\<rparr>
   \<and> dixon_algorithm \<lparr>rows = 1, cols = 2, data = [200, 50]\<rparr>
         \<lparr>rows = 1, cols = 2, data = [100, 100]\<rparr>
       = Inr (\<lparr>rows = 1, cols = 2, data = [255 / 2, 75]\<rparr>,
              \<lparr>rows = 1, cols = 2, data = [50, 0]\<rparr>)"
proof -
  let ?a = "\<lparr>rows = 1, cols = 2, data = [200, 50 :: 8 word]\<rparr>"
  let ?b = "\<lparr>rows = 1, cols = 2, data = [100, 100 :: 8 word]\<rparr>"
  have h1: "is_image ?a" and h2: "is_image ?b" and h3: "shape ?a = shape ?b"
    by (simp_all add: is_image_def shape_def)
  from dixon_algorithm_saturates [OF h1 h2 h3]
  obtain water fat where r: "dixon_algorithm ?a ?b = Inr (water, fat)"
    and s: "shape water = shape ?a" "shape fat = shape ?a"
    and l: "length (data water) = 2" "length (data fat) = 2"
    and v: "\<forall>i < 2. data water ! i = of_int (min (uint (data ?a ! i) + uint (data ?b ! i)) 255) / 2
               \<and> data fat ! i = of_int (max (uint (data ?a ! i) - uint (data ?b ! i)) 0) / 2"
    by auto
  from v [rule_format, of 0] v [rule_format, of 1]
  have "data water ! 0 = 255 / 2" "data water ! 1 = 75" "data fat ! 0 = 50" "data fat ! 1 = 0"
    by simp_all
  with l have "data water = [255 / 2, 75]" "data fat = [50, 0]"
    by (auto simp: length_Suc_conv numeral_2_eq_2)
  with s have "water = \<lparr>rows = 1, cols = 2, data = [255 / 2, 75]\<rparr>"
    "fat = \<lparr>rows = 1, cols = 2, data = [50, 0]\<rparr>"
    by (auto simp: shape_def)
  with r h1 h2 h3 show ?thesis by simp
qed

text \<open>
  Claim C1, as the specification states it, fails: for the in-phase row \<open>[200, 50]\<close> and
  the out-phase row \<open>[100, 100]\<close> the code returns water \<open>[127.5, 75]\<close> and fat
  \<open>[50, 0]\<close>, where the unclamped formulas give water \<open>[150, 75]\<close> and fat \<open>[50, -25]\<close>.
\<close>

theorem dixon_algorithm_counterexample:
  "dixon_algorithm \<lparr>rows = 1, cols = 2, data = [200, 50]\<rparr>
       \<lparr>rows = 1, cols = 2, data = [100, 100]\<rparr>
     = Inr (\<lparr>rows = 1, cols = 2, data = [255 / 2, 75]\<rparr>,
            \<lparr>rows = 1, cols = 2, data = [50, 0]\<rparr>)
   \<and> separate_spec \<lparr>rows = 1, cols = 2, data = [200, 50]\<rparr>
       \<lparr>rows = 1, cols = 2, data = [100, 100]\<rparr>
     = (\<lparr>rows = 1, cols = 2, data = [150, 75]\<rparr>,
        \<lparr>rows = 1, cols = 2, data = [50, - 25]\<rparr>)
   \<and> dixon_algorithm \<lparr>rows = 1, cols = 2, data = [200, 50]\<rparr>
       \<lparr>rows = 1, cols = 2, data = [100, 100]\<rparr>
     \<noteq> Inr (separate_spec \<lparr>rows = 1, cols = 2, data = [200, 50]\<rparr>
              \<lparr>rows = 1, cols = 2, data = [100, 100]\<rparr>)"
  by (simp add: dixon_algorithm_def cv2_add_def cv2_subtract_def halve_def map_ndarray_def
      empty_array_def shape_def saturate_add_def saturate_subtract_def uint8_value_def
      separate_spec_def)

text \<open>
  Claim C2. Round trip of the separation: for two images of one shape in which no sample
  is clamped (every sum fits 8 bits, no difference is negative), the separator returns
  water and fat with \<open>water + fat = in_phase\<close> and \<open>water - fat = out_phase\<close> at every
  position, exactly.
\<close>

theorem dixon_algorithm_round_trip:
  assumes "is_image a" "is_image b" "shape a = shape b" "no_clamping a b"
  shows "\<exists>water fat. dixon_algorithm a b = Inr (water, fat)
           \<and> shape water = shape a \<and> shape fat = shape a
           \<and> map2 (+) (data water) (data fat) = map uint8_value (data a)
           \<and> map2 (-) (data water) (data fat) = map uint8_value (data b)"
proof -
  note len = is_image_same_length [OF assms(1-3)]
  have nc: "uint (data a ! i) + uint (data b ! i) \<le> 255 \<and> 0 \<le> uint (data a ! i) - uint (data b ! i)"
    if "i < length (data a)" for i
  proof -
    from that len have "(data a ! i, data b ! i) \<in> set (zip (data a) (data b))"
      by (metis in_set_zip fst_conv snd_conv)
    with assms(4) show ?thesis
      by (auto simp: no_clamping_def list_all_iff)
  qed
  have sum: "uint8_value (saturate_add x y) / 2 + uint8_value (saturate_subtract x y) / 2
               = uint8_value x"
    and diff: "uint8_value (saturate_add x y) / 2 - uint8_value (saturate_subtract x y) / 2
               = uint8_value y"
    if "uint x + uint y \<le> 255 \<and> 0 \<le> uint x - uint y" for x y
    using that
    by (simp_all add: uint8_value_def uint_saturate_add uint_saturate_subtract
        min_def max_def field_simps del: of_int_uint)
  have "map2 (+) (map (\<lambda>w. uint8_value w / 2) (map2 saturate_add (data a) (data b)))
          (map (\<lambda>w. uint8_value w / 2) (map2 saturate_subtract (data a) (data b)))
        = map uint8_value (data a)"
    using len nc by (intro nth_equalityI) (simp_all add: sum)
  moreover have "map2 (-) (map (\<lambda>w. uint8_value w / 2) (map2 saturate_add (data a) (data b)))
          (map (\<lambda>w. uint8_value w / 2) (map2 saturate_subtract (data a) (data b)))
        = map uint8_value (data b)"
    using len nc by (intro nth_equalityI) (simp_all add: diff)
  ultimately show ?thesis
    unfolding dixon_algorithm_same_shape [OF assms(1-3)]
    by (simp add: shape_def)
qed

theorem dixon_algorithm_round_trip_witness:
  "is_image (full 4 4 (100 :: 8 word)) \<and> is_image (full 4 4 (50 :: 8 word))
   \<and> shape (full 4 4 (100 :: 8 word)) = shape (full 4 4 (50 :: 8 word))
   \<and> no_clamping (full 4 4 100) (full 4 4 50)
   \<and> (\<exists>water fat. dixon_algorithm (full 4 4 100) (full 4 4 50) = Inr (water, fat)
         \<and> map2 (+) (data water) (data fat) = replicate 16 100
         \<and> map2 (-) (data water) (data fat) = replicate 16 50)"
proof -
  have h1: "is_image (full 4 4 (100 :: 8 word))" and h2: "is_image (full 4 4 (50 :: 8 word))"
    and h3: "shape (full 4 4 (100 :: 8 word)) = shape (full 4 4 (50 :: 8 word))"
    by (simp_all add: is_image_def shape_def full_def)
  have h4: "no_clamping (full 4 4 100) (full 4 4 50)"
    by (simp add: no_clamping_def full_def list_all_iff)
  from dixon_algorithm_round_trip [OF h1 h2 h3 h4] h1 h2 h3 h4 show ?thesis
    by (auto simp add: full_def uint8_value_def)
qed

text \<open>
  Claim C3. For two images whose shapes differ the separator fails with \<open>cv2.error\<close>,
  raised by the size check of \<open>cv2.add\<close>, the first call of the function (the
  specification's \<open>DimensionMismatch\<close>). It fails before any work on the pixel data: the
  log of the call is empty, where the log of a call on two images of one shape holds the
  four array operations over all samples (lemma \<open>dixon_algorithm_log_same_shape\<close>). A
  10 x 10 image with a 10 x 12 image is the witness.
\<close>

theorem dixon_algorithm_size_mismatch:
  assumes "is_image a" "is_image b" "shape a \<noteq> shape b"
  shows "dixon_algorithm a b = Inl cv2_error
         \<and> dixon_algorithm_log a b = ([], Inl cv2_error)"
  using assms(3) is_image_not_empty [OF assms(1)]
  by (simp add: dixon_algorithm_def dixon_algorithm_log_def cv2_add_def)

theorem dixon_algorithm_size_mismatch_witness:
  "is_image (full 10 10 (0 :: 8 word)) \<and> is_image (full 10 12 (0 :: 8 word))
   \<and> shape (full 10 10 (0 :: 8 word)) \<noteq> shape (full 10 12 (0 :: 8 word))
   \<and> dixon_algorithm (full 10 10 0) (full 10 12 0) = Inl cv2_error
   \<and> dixon_algorithm_log (full 10 10 0) (full 10 12 0) = ([], Inl cv2_error)"
proof -
  have h1: "is_image (full 10 10 (0 :: 8 word))" and h2: "is_image (full 10 12 (0 :: 8 word))"
    by (simp_all add: is_image_def full_def)
  have h3: "shape (full 10 10 (0 :: 8 word)) \<noteq> shape (full 10 12 (0 :: 8 word))"
    by (simp add: shape_def full_def)
  from h1 h2 h3 dixon_algorithm_size_mismatch [OF h1 h2 h3] show ?thesis
    by simp
qed

text \<open>
  Claim C9. For two \<open>uint8\<close> images of one shape both outputs of \<open>dixon_algorithm\<close> lie
  between 0 and 127.5 at every position, being halves of the sum saturated at 255 and of
  the difference saturated at 0; the fat output is never negative.
\<close>

theorem dixon_algorithm_bounds:
  assumes "is_image a" "is_image b" "shape a = shape b"
  shows "\<exists>water fat. dixon_algorithm a b = Inr (water, fat)
           \<and> data water = map2 (\<lambda>x y. uint8_value (saturate_add x y) / 2) (data a) (data b)
           \<and> data fat = map2 (\<lambda>x y. uint8_value (saturate_subtract x y) / 2) (data a) (data b)
           \<and> list_all (\<lambda>v. 0 \<le> v \<and> v \<le> 255 / 2) (data water)
           \<and> list_all (\<lambda>v. 0 \<le> v \<and> v \<le> 255 / 2) (data fat)"
  unfolding dixon_algorithm_same_shape [OF assms]
  by (auto simp: list_all_iff uint8_value_bounds)

theorem dixon_algorithm_bounds_witness:
  "is_image \<lparr>rows = 2, cols = 1, data = [255, 0 :: 8 word]\<rparr>
   \<and> is_image \<lparr>rows = 2, cols = 1, data = [255, 255 :: 8 word]\<rparr>
   \<and> shape \<lparr>rows = 2, cols = 1, data = [255, 0 :: 8 word]\<rparr>
       = shape \<lparr>rows = 2, cols = 1, data = [255, 255 :: 8 word]\<rparr>
   \<and> (\<exists>water fat.
         dixon_algorithm \<lparr>rows = 2, cols = 1, data = [255, 0]\<rparr>
           \<lparr>rows = 2, cols = 1, data = [255, 255]\<rparr> = Inr (water, fat)
         \<and> data water = [255 / 2, 255 / 2] \<and> data fat = [0, 0]
         \<and> list_all (\<lambda>v. 0 \<le> v \<and> v \<le> 255 / 2) (data water)
         \<and> list_all (\<lambda>v. 0 \<le> v \<and> v \<le> 255 / 2) (data fat))"
proof -
  let ?a = "\<lparr>rows = 2, cols = 1, data = [255, 0 :: 8 word]\<rparr>"
  let ?b = "\<lparr>rows = 2, cols = 1, data = [255, 255 :: 8 word]\<rparr>"
  have h1: "is_image ?a" and h2: "is_image ?b" and h3: "shape ?a = shape ?b"
    by (simp_all add: is_image_def shape_def)
  from dixon_algorithm_bounds [OF h1 h2 h3] h1 h2 h3 show ?thesis
    by (auto simp: saturate_add_def saturate_subtract_def uint8_value_def)
qed

section \<open>Facts about the normalization\<close>

lemma amin_Min: "xs \<noteq> [] \<Longrightarrow> amin xs = Inr (Min (set xs))"
  by (cases xs) (simp_all add: Min.set_eq_fold [symmetric])

lemma amax_Max: "xs \<noteq> [] \<Longrightarrow> amax xs = Inr (Max (set xs))"
  by (cases xs) (simp_all add: Max.set_eq_fold [symmetric])

lemma np_minimum_Finite: "np_minimum (Finite a) (Finite b) = Finite (min a b)"
  by (simp add: np_minimum_def isnan_def min_def)

lemma np_maximum_Finite: "np_maximum (Finite a) (Finite b) = Finite (max a b)"
  by (simp add: np_maximum_def isnan_def max_def)

lemma fold_np_minimum_Finite:
  "fold (\<lambda>y acc. np_minimum acc y) (map Finite qs) (Finite q) = Finite (fold min qs q)"
  by (induction qs arbitrary: q) (simp_all add: np_minimum_Finite min.commute)

lemma fold_np_maximum_Finite:
  "fold (\<lambda>y acc. np_maximum acc y) (map Finite qs) (Finite q) = Finite (fold max qs q)"
  by (induction qs arbitrary: q) (simp_all add: np_maximum_Finite max.commute)

lemma float_min_Finite: "qs \<noteq> [] \<Longrightarrow> float_min (map Finite qs) = Inr (Finite (Min (set qs)))"
  by (cases qs) (simp_all add: fold_np_minimum_Finite Min.set_eq_fold [symmetric])

lemma float_max_Finite: "qs \<noteq> [] \<Longrightarrow> float_max (map Finite qs) = Inr (Finite (Max (set qs)))"
  by (cases qs) (simp_all add: fold_np_maximum_Finite Max.set_eq_fold [symmetric])

lemma fold_np_minimum_NaN: "fold (\<lambda>y acc. np_minimum acc y) xs NaN = NaN"
  by (induction xs) (simp_all add: np_minimum_def isnan_def)

lemma fold_np_maximum_NaN: "fold (\<lambda>y acc. np_maximum acc y) xs NaN = NaN"
  by (induction xs) (simp_all add: np_maximum_def isnan_def)

lemma np_interp_unit:
  assumes "0 \<le> q" "q \<le> 1"
  shows "np_interp (Finite q) (Finite 0, Finite 1) (0, 255) = Finite (255 * q)"
  using assms
  by (auto simp: np_interp_def isnan_def fle_def feq_def fsub_def)

lemma np_interp_NaN: "np_interp NaN xp fp = NaN"
  by (cases xp; cases fp) (simp add: np_interp_def isnan_def)

lemma true_divide_pos: "d \<noteq> 0 \<Longrightarrow> true_divide a d = Finite (a / d)"
  by (simp add: true_divide_def)

lemma true_divide_zero_zero: "true_divide 0 0 = NaN"
  by (simp add: true_divide_def)

lemma astype_uint8_Finite:
  assumes "0 \<le> r" "r < 256"
  shows "astype_uint8 u (Finite r) = word_of_int \<lfloor>r\<rfloor>"
  using assms by (simp add: astype_uint8_def truncate_def)

lemma astype_uint8_NaN: "astype_uint8 u NaN = 0"
  by (simp add: astype_uint8_def)

lemma is_image_nonempty: "is_image img \<Longrightarrow> data img \<noteq> []"
  by (auto simp: is_image_def)

lemma non_constant_Min_less_Max:
  fixes img :: "rat ndarray"
  assumes "non_constant_image img"
  shows "Min (set (data img)) < Max (set (data img))"
proof -
  from assms have ne: "data img \<noteq> []"
    by (simp add: non_constant_image_def is_image_nonempty)
  from assms obtain v where v: "v \<in> set (data img)" "v \<noteq> hd (data img)"
    by (auto simp: non_constant_image_def list_ex_iff)
  from ne have h: "hd (data img) \<in> set (data img)"
    by simp
  have "Min (set (data img)) \<le> min v (hd (data img))"
    using v(1) h by simp
  moreover have "max v (hd (data img)) \<le> Max (set (data img))"
    using v(1) h by simp
  moreover have "min v (hd (data img)) < max v (hd (data img))"
    using v(2) by (auto simp: min_def max_def)
  ultimately show ?thesis
    by linarith
qed

lemma min_max_float_non_constant:
  fixes img :: "rat ndarray"
  assumes "non_constant_image img"
  shows "min_max_float img =
           Inr \<lparr>rows = rows img, cols = cols img,
                data = map (\<lambda>v. Finite (255 * ((v - Min (set (data img)))
                                               / (Max (set (data img)) - Min (set (data img))))))
                         (data img)\<rparr>"
proof -
  define xs where "xs = data img"
  define lo where "lo = Min (set xs)"
  define hi where "hi = Max (set xs)"
  define q where "q = (\<lambda>v. (v - lo) / (hi - lo))"
  define ys where "ys = map q xs"
  from assms have ne: "xs \<noteq> []"
    by (simp add: non_constant_image_def is_image_nonempty xs_def)
  then have ne': "ys \<noteq> []"
    by (simp add: ys_def)
  have lt: "lo < hi"
    using non_constant_Min_less_Max [OF assms] by (simp add: lo_def hi_def xs_def)
  have range: "0 \<le> q v \<and> q v \<le> 1" if "v \<in> set xs" for v
  proof -
    from that have "lo \<le> v" "v \<le> hi"
      by (simp_all add: lo_def hi_def)
    with lt show ?thesis
      by (simp add: q_def)
  qed
  have lo_in: "lo \<in> set xs" and hi_in: "hi \<in> set xs"
    using ne by (simp_all add: lo_def hi_def)
  have norm: "map (\<lambda>v. true_divide (v - lo) (hi - lo)) xs = map Finite ys"
    using lt by (simp add: true_divide_pos q_def ys_def)
  have "Min (set ys) = 0"
  proof (rule Min_eqI)
    show "finite (set ys)" by simp
    show "0 \<le> y" if "y \<in> set ys" for y
      using that range by (auto simp: ys_def)
    have "q lo = 0" by (simp add: q_def)
    with lo_in show "0 \<in> set ys"
      unfolding ys_def by (metis image_eqI set_map)
  qed
  then have fmin: "float_min (map Finite ys) = Inr (Finite 0)"
    using ne' by (simp add: float_min_Finite)
  have "Max (set ys) = 1"
  proof (rule Max_eqI)
    show "finite (set ys)" by simp
    show "y \<le> 1" if "y \<in> set ys" for y
      using that range by (auto simp: ys_def)
    have "q hi = 1" using lt by (simp add: q_def)
    with hi_in show "1 \<in> set ys"
      unfolding ys_def by (metis image_eqI set_map)
  qed
  then have fmax: "float_max (map Finite ys) = Inr (Finite 1)"
    using ne' by (simp add: float_max_Finite)
  have interp: "map (\<lambda>x. np_interp x (Finite 0, Finite 1) (0, 255)) (map Finite ys)
                  = map (\<lambda>v. Finite (255 * q v)) xs"
    using range by (simp add: np_interp_unit ys_def)
  have a: "amin xs = Inr lo" "amax xs = Inr hi"
    using ne by (simp_all add: amin_Min amax_Max lo_def hi_def)
  have "min_max_float img =
          Inr \<lparr>rows = rows img, cols = cols img, data = map (\<lambda>v. Finite (255 * q v)) xs\<rparr>"
    unfolding min_max_float_def xs_def [symmetric]
    by (simp only: a sum.case Let_def norm fmin fmax interp)
  then show ?thesis
    by (simp add: q_def lo_def hi_def xs_def)
qed

lemma unit_interval_scaled:
  fixes lo hi v :: rat
  assumes "lo < hi" "lo \<le> v" "v \<le> hi"
  shows "0 \<le> 255 * ((v - lo) / (hi - lo))" "255 * ((v - lo) / (hi - lo)) \<le> 255"
proof -
  define q where "q = (v - lo) / (hi - lo)"
  from assms have "0 \<le> q" "q \<le> 1"
    by (simp_all add: q_def)
  then have "0 \<le> 255 * q" "255 * q \<le> 255"
    by simp_all
  then show "0 \<le> 255 * ((v - lo) / (hi - lo))" "255 * ((v - lo) / (hi - lo)) \<le> 255"
    by (simp_all only: q_def)
qed

lemma min_max_normalization_non_constant:
  fixes img :: "rat ndarray"
  assumes "non_constant_image img"
  shows "min_max_normalization u img =
           Inr \<lparr>rows = rows img, cols = cols img,
                data = map (\<lambda>v. word_of_int \<lfloor>255 * ((v - Min (set (data img)))
                                               / (Max (set (data img)) - Min (set (data img))))\<rfloor>)
                         (data img)\<rparr>"
proof -
  note lt = non_constant_Min_less_Max [OF assms]
  have "astype_uint8 u (Finite (255 * ((v - Min (set (data img)))
                                   / (Max (set (data img)) - Min (set (data img))))))
        = word_of_int \<lfloor>255 * ((v - Min (set (data img)))
                                   / (Max (set (data img)) - Min (set (data img))))\<rfloor>"
    if "v \<in> set (data img)" for v
  proof -
    from that have "Min (set (data img)) \<le> v" "v \<le> Max (set (data img))"
      by simp_all
    from unit_interval_scaled [OF lt this] show ?thesis
      by (intro astype_uint8_Finite) simp_all
  qed
  then show ?thesis
    by (simp add: min_max_normalization_def min_max_float_non_constant [OF assms]
        map_ndarray_def)
qed

lemma constant_image_samples:
  assumes "constant_image img"
  shows "data img \<noteq> []" "set (data img) = {hd (data img)}"
proof -
  define c where "c = hd (data img)"
  from assms have "is_image img"
    unfolding constant_image_def by (rule conjunct1)
  then show ne: "data img \<noteq> []"
    by (rule is_image_nonempty)
  then have in_set: "c \<in> set (data img)"
    unfolding c_def by (rule hd_in_set)
  from assms have "list_all (\<lambda>v. v = c) (data img)"
    unfolding constant_image_def c_def by (rule conjunct2)
  then have all: "v = c" if "v \<in> set (data img)" for v
    using that unfolding list_all_iff by (rule bspec)
  have "set (data img) = {c}"
    using in_set all by blast
  then show "set (data img) = {hd (data img)}"
    unfolding c_def .
qed

lemma float_min_all_NaN: "xs \<noteq> [] \<Longrightarrow> float_min (map (\<lambda>_. NaN) xs) = Inr NaN"
  by (cases xs) (simp_all add: fold_np_minimum_NaN)

lemma float_max_all_NaN: "xs \<noteq> [] \<Longrightarrow> float_max (map (\<lambda>_. NaN) xs) = Inr NaN"
  by (cases xs) (simp_all add: fold_np_maximum_NaN)

lemma min_max_float_constant:
  fixes img :: "rat ndarray"
  assumes "constant_image img"
  shows "min_max_float img = Inr (map_ndarray (\<lambda>_. NaN) img)"
proof -
  define xs where "xs = data img"
  define c where "c = hd xs"
  from constant_image_samples [OF assms] have ne: "xs \<noteq> []" and set: "set xs = {c}"
    by (simp_all add: xs_def c_def)
  have a: "amin xs = Inr c" "amax xs = Inr c"
    using ne by (simp_all add: amin_Min amax_Max set)
  have norm: "map (\<lambda>v. true_divide (v - c) (c - c)) xs = map (\<lambda>_. NaN) xs"
    using set by (simp add: true_divide_zero_zero)
  have f: "float_min (map (\<lambda>_. NaN) xs) = Inr NaN" "float_max (map (\<lambda>_. NaN) xs) = Inr NaN"
    using ne by (simp_all add: float_min_all_NaN float_max_all_NaN)
  have interp: "map (\<lambda>x. np_interp x (NaN, NaN) (0, 255)) (map (\<lambda>_. NaN) xs)
                  = map (\<lambda>_. NaN) xs"
    by (simp add: np_interp_NaN)
  show ?thesis
    unfolding min_max_float_def map_ndarray_def xs_def [symmetric]
    by (simp only: a sum.case Let_def norm f interp)
qed

lemma min_max_normalization_constant:
  fixes img :: "rat ndarray"
  assumes "constant_image img"
  shows "min_max_normalization u img = Inr (map_ndarray (\<lambda>_. 0) img)"
  by (simp add: min_max_normalization_def min_max_float_constant [OF assms] map_ndarray_def
      astype_uint8_NaN)

lemma uint_word_of_int_8:
  assumes "0 \<le> k" "k \<le> 255"
  shows "uint (word_of_int k :: 8 word) = k"
  using assms by (simp add: uint_word_of_int)

lemma word8_le_255: "(w :: 8 word) \<le> 255"
  using uint_le_255 [of w] by (simp add: word_le_def)

lemma min_max_normalization_attains:
  fixes img :: "rat ndarray"
  assumes "non_constant_image img" "min_max_normalization u img = Inr out"
  shows "0 \<in> set (data out)" "255 \<in> set (data out)"
    "rows out = rows img" "cols out = cols img" "length (data out) = length (data img)"
proof -
  define lo where "lo = Min (set (data img))"
  define hi where "hi = Max (set (data img))"
  define f :: "rat \<Rightarrow> 8 word" where "f = (\<lambda>v. word_of_int \<lfloor>255 * ((v - lo) / (hi - lo))\<rfloor>)"
  from assms have out: "out = \<lparr>rows = rows img, cols = cols img, data = map f (data img)\<rparr>"
    by (simp add: min_max_normalization_non_constant lo_def hi_def f_def)
  from assms(1) have ne: "data img \<noteq> []"
    by (simp add: non_constant_image_def is_image_nonempty)
  then have lo_in: "lo \<in> set (data img)" and hi_in: "hi \<in> set (data img)"
    by (simp_all add: lo_def hi_def)
  have lt: "lo < hi"
    using non_constant_Min_less_Max [OF assms(1)] by (simp add: lo_def hi_def)
  have "f lo = 0"
    by (simp add: f_def)
  with lo_in show "0 \<in> set (data out)"
    unfolding out by (metis image_eqI set_map select_convs(3))
  have one: "(hi - lo) / (hi - lo) = 1"
    using lt by simp
  have "f hi = word_of_int \<lfloor>255 * ((hi - lo) / (hi - lo))\<rfloor>"
    by (simp only: f_def)
  also have "\<dots> = word_of_int \<lfloor>255 * (1 :: rat)\<rfloor>"
    by (simp only: one)
  also have "\<dots> = 255"
    by simp
  finally have "f hi = 255" .
  with hi_in show "255 \<in> set (data out)"
    unfolding out by (metis image_eqI set_map select_convs(3))
  show "rows out = rows img" "cols out = cols img" "length (data out) = length (data img)"
    by (simp_all add: out)
qed

lemma Min_word8_zero:
  fixes ws :: "8 word list"
  assumes "0 \<in> set ws"
  shows "Min (set ws) = 0"
  using assms by (intro Min_eqI) simp_all

lemma Max_word8_255:
  fixes ws :: "8 word list"
  assumes "255 \<in> set ws"
  shows "Max (set ws) = 255"
  using assms by (intro Max_eqI) (simp_all add: word8_le_255)

text \<open>
  Claim C5, as the code has it. For an image that is not constant, with samples that are
  integers or halves of integers from 0 to 65535 (pixel data of an unsigned dtype of 8
  or 16 bits, or an output of the separator), the normalization returns a \<open>uint8\<close>
  image of the same shape in which every sample \<open>v\<close> has become
  \<open>(v - min) / (max - min) * 255\<close> with the fraction dropped (the conversion
  \<open>astype(np.uint8)\<close> truncates, it does not round), and whose least sample is 0 and
  greatest sample is 255.
\<close>

theorem min_max_normalization_truncates:
  fixes img :: "rat ndarray"
  assumes "non_constant_image img" "half_integer_samples img"
  shows "\<exists>out. min_max_normalization u img = Inr out
           \<and> shape out = shape img \<and> length (data out) = length (data img)
           \<and> (\<forall>i < length (data img).
                 uint (data out ! i)
                   = \<lfloor>(data img ! i - Min (set (data img)))
                        / (Max (set (data img)) - Min (set (data img))) * 255\<rfloor>)
           \<and> Min (set (data out)) = 0 \<and> Max (set (data out)) = 255"
proof -
  define lo where "lo = Min (set (data img))"
  define hi where "hi = Max (set (data img))"
  define out where
    "out = \<lparr>rows = rows img, cols = cols img,
             data = map (\<lambda>v. word_of_int \<lfloor>255 * ((v - lo) / (hi - lo))\<rfloor> :: 8 word) (data img)\<rparr>"
  have r: "min_max_normalization u img = Inr out"
    by (simp add: min_max_normalization_non_constant [OF assms(1)] out_def lo_def hi_def)
  note at = min_max_normalization_attains [OF assms(1) r]
  have lt: "lo < hi"
    using non_constant_Min_less_Max [OF assms(1)] by (simp add: lo_def hi_def)
  have v: "uint (data out ! i) = \<lfloor>(data img ! i - lo) / (hi - lo) * 255\<rfloor>"
    if "i < length (data img)" for i
  proof -
    from that have "data img ! i \<in> set (data img)"
      by simp
    then have "lo \<le> data img ! i" "data img ! i \<le> hi"
      by (simp_all add: lo_def hi_def)
    from unit_interval_scaled [OF lt this]
    have "0 \<le> \<lfloor>255 * ((data img ! i - lo) / (hi - lo))\<rfloor>"
      "\<lfloor>255 * ((data img ! i - lo) / (hi - lo))\<rfloor> \<le> 255"
      by (simp_all add: floor_le_iff del: times_divide_eq_right)
    then have "uint (word_of_int \<lfloor>255 * ((data img ! i - lo) / (hi - lo))\<rfloor> :: 8 word)
                 = \<lfloor>255 * ((data img ! i - lo) / (hi - lo))\<rfloor>"
      by (rule uint_word_of_int_8)
    with that show ?thesis
      by (simp add: out_def mult.commute del: times_divide_eq_right times_divide_eq_left)
  qed
  from at(1) have "Min (set (data out)) = 0"
    by (rule Min_word8_zero)
  moreover from at(2) have "Max (set (data out)) = 255"
    by (rule Max_word8_255)
  ultimately show ?thesis
    using r at(3-5) v by (simp add: shape_def lo_def hi_def)
qed

lemma floor_255_2: "\<lfloor>255 / 2 :: rat\<rfloor> = 127"
  by (rule floor_unique) simp_all

lemma non_constant_example:
  "non_constant_image \<lparr>rows = 1, cols = 3, data = [0, 1, 2 :: rat]\<rparr>"
  by (simp add: non_constant_image_def is_image_def)

theorem min_max_normalization_truncates_witness:
  "non_constant_image \<lparr>rows = 1, cols = 3, data = [0, 1, 2 :: rat]\<rparr>
   \<and> half_integer_samples \<lparr>rows = 1, cols = 3, data = [0, 1, 2 :: rat]\<rparr>
   \<and> (\<exists>out. min_max_normalization (\<lambda>_. 0) \<lparr>rows = 1, cols = 3, data = [0, 1, 2]\<rparr> = Inr out
         \<and> shape out = (1, 3) \<and> length (data out) = 3
         \<and> uint (data out ! 0) = 0 \<and> uint (data out ! 1) = 127 \<and> uint (data out ! 2) = 255
         \<and> Min (set (data out)) = 0 \<and> Max (set (data out)) = 255)"
proof -
  let ?img = "\<lparr>rows = 1, cols = 3, data = [0, 1, 2 :: rat]\<rparr>"
  have h: "non_constant_image ?img"
    by (rule non_constant_example)
  have g: "half_integer_samples ?img"
    by (simp add: half_integer_samples_def)
  from min_max_normalization_truncates [OF h g, of "\<lambda>_. 0"]
  obtain out where r: "min_max_normalization (\<lambda>_. 0) ?img = Inr out"
    and s: "shape out = shape ?img" "length (data out) = length (data ?img)"
    and v: "\<forall>i < length (data ?img).
              uint (data out ! i)
                = \<lfloor>(data ?img ! i - Min (set (data ?img)))
                     / (Max (set (data ?img)) - Min (set (data ?img))) * 255\<rfloor>"
    and m: "Min (set (data out)) = 0" "Max (set (data out)) = 255"
    by blast
  from v [rule_format, of 0] v [rule_format, of 1] v [rule_format, of 2]
  have "uint (data out ! 0) = 0" "uint (data out ! 1) = 127" "uint (data out ! 2) = 255"
    by (simp_all add: floor_255_2)
  with h g r s m show ?thesis
    by (simp add: shape_def)
qed

text \<open>
  Claim C5, as the specification states it, fails: of the row \<open>[0, 1, 2]\<close> the middle
  sample is \<open>127.5\<close> after scaling, which the code truncates to 127 and the rounding of
  the specification takes to 128.
\<close>

theorem min_max_normalization_counterexample:
  "min_max_normalization (\<lambda>_. 0) \<lparr>rows = 1, cols = 3, data = [0, 1, 2]\<rparr>
     = Inr \<lparr>rows = 1, cols = 3, data = [0, 127, 255]\<rparr>
   \<and> normalize_spec \<lparr>rows = 1, cols = 3, data = [0, 1, 2]\<rparr>
     = \<lparr>rows = 1, cols = 3, data = [0, 128, 255]\<rparr>
   \<and> min_max_normalization (\<lambda>_. 0) \<lparr>rows = 1, cols = 3, data = [0, 1, 2]\<rparr>
     \<noteq> Inr (normalize_spec \<lparr>rows = 1, cols = 3, data = [0, 1, 2]\<rparr>)"
proof -
  let ?img = "\<lparr>rows = 1, cols = 3, data = [0, 1, 2 :: rat]\<rparr>"
  have a: "min_max_normalization (\<lambda>_. 0) ?img = Inr \<lparr>rows = 1, cols = 3, data = [0, 127, 255]\<rparr>"
    using min_max_normalization_non_constant [OF non_constant_example, of "\<lambda>_. 0"]
    by (simp add: floor_255_2)
  have b: "normalize_spec ?img = \<lparr>rows = 1, cols = 3, data = [0, 128, 255]\<rparr>"
    by (simp add: normalize_spec_def map_ndarray_def round_def)
  show ?thesis
    unfolding a b by simp
qed

lemma uint8_value_numerals: "uint8_value 0 = 0" "uint8_value 255 = 255"
  by (simp_all add: uint8_value_def)

lemma word_of_floor_uint8_value:
  "word_of_int \<lfloor>255 * ((uint8_value w - 0) / (255 - 0))\<rfloor> = w"
proof -
  have "255 * ((uint8_value w - 0) / (255 - 0)) = of_int (uint w)"
    by (simp add: uint8_value_def del: of_int_uint)
  then have "\<lfloor>255 * ((uint8_value w - 0) / (255 - 0))\<rfloor> = uint w"
    by (simp only: floor_of_int)
  then show ?thesis
    by (simp only: word_of_int_uint)
qed

lemma min_max_normalization_full_range:
  fixes out :: "8 word ndarray"
  assumes "is_image out" "0 \<in> set (data out)" "255 \<in> set (data out)"
  shows "min_max_normalization u (map_ndarray uint8_value out) = Inr out"
proof -
  define img where "img = map_ndarray uint8_value out"
  have d: "data img = map uint8_value (data out)"
    and rc: "rows img = rows out" "cols img = cols out"
    by (simp_all add: img_def map_ndarray_def)
  have im: "is_image img"
    using assms(1) by (simp add: is_image_def d rc)
  have z: "0 \<in> set (data img)" and m: "255 \<in> set (data img)"
    using assms(2,3) uint8_value_numerals unfolding d set_map by (metis image_eqI)+
  have "\<exists>v \<in> set (data img). v \<noteq> hd (data img)"
  proof (cases "hd (data img) = 0")
    case True
    with m show ?thesis by (intro bexI [of _ 255]) simp_all
  next
    case False
    with z show ?thesis by (intro bexI [of _ 0]) simp_all
  qed
  with im have nc: "non_constant_image img"
    by (simp add: non_constant_image_def list_ex_iff)
  have lo: "Min (set (data img)) = 0"
    using z by (intro Min_eqI) (auto simp: d uint8_value_bounds)
  have hi: "Max (set (data img)) = 255"
    using m by (intro Max_eqI) (auto simp: d uint8_value_bounds)
  have e: "map (\<lambda>v. word_of_int \<lfloor>255 * ((v - 0) / (255 - 0))\<rfloor>) (map uint8_value (data out))
          = data out"
    by (simp only: map_map o_def word_of_floor_uint8_value map_ident)
  have "min_max_normalization u img =
          Inr \<lparr>rows = rows img, cols = cols img,
               data = map (\<lambda>v. word_of_int \<lfloor>255 * ((v - 0) / (255 - 0))\<rfloor>) (data img)\<rparr>"
    by (simp only: min_max_normalization_non_constant [OF nc] lo hi)
  also have "\<dots> = Inr \<lparr>rows = rows out, cols = cols out, data = data out\<rparr>"
    by (simp only: d rc e)
  finally show ?thesis
    by (simp add: img_def)
qed

text \<open>
  Claim C6. Normalization is idempotent on normalized input: for an image that is not
  constant, normalizing the normalized image gives the normalized image again, sample
  for sample.
\<close>

theorem min_max_normalization_idempotent:
  fixes img :: "rat ndarray"
  assumes "non_constant_image img"
  shows "\<exists>out. min_max_normalization u img = Inr out
           \<and> min_max_normalization u (map_ndarray uint8_value out) = Inr out"
proof -
  from min_max_normalization_non_constant [OF assms, of u]
  obtain out where r: "min_max_normalization u img = Inr out"
    by blast
  note at = min_max_normalization_attains [OF assms r]
  from assms have "is_image img"
    by (simp add: non_constant_image_def)
  with at(3-5) have "is_image out"
    by (simp add: is_image_def)
  from min_max_normalization_full_range [OF this at(1,2)] r show ?thesis
    by blast
qed

theorem min_max_normalization_idempotent_witness:
  "non_constant_image \<lparr>rows = 1, cols = 3, data = [0, 1, 2 :: rat]\<rparr>
   \<and> (\<exists>out. min_max_normalization (\<lambda>_. 0) \<lparr>rows = 1, cols = 3, data = [0, 1, 2]\<rparr> = Inr out
         \<and> min_max_normalization (\<lambda>_. 0) (map_ndarray uint8_value out) = Inr out)"
  using non_constant_example
    min_max_normalization_idempotent [OF non_constant_example, of "\<lambda>_. 0"]
  by blast

section \<open>Facts about rounding\<close>



lemma round_half_even_of_int: "round_half_even (of_int k) = k"
  by (simp add: round_half_even_def)

lemma bitlen_pos_obtain:
  assumes "0 < n"
  obtains k :: nat where "bitlen n = int k + 1" "2 ^ k \<le> n" "n < 2 ^ (k + 1)"
proof -
  from assms have "bitlen n \<noteq> 0"
    by (simp add: bitlen_eq_zero_iff)
  with bitlen_nonneg [of n] have b1: "1 \<le> bitlen n"
    by linarith
  define k where "k = nat (bitlen n - 1)"
  from b1 have b: "bitlen n = int k + 1"
    by (simp add: k_def)
  then have "nat (bitlen n) = k + 1"
    by simp
  with bitlen_bounds [OF assms] have "2 ^ k \<le> n" "n < 2 ^ (k + 1)"
    by (simp_all add: k_def)
  with b show thesis
    by (rule that)
qed

lemma power_int_neg_nat: "(2 :: rat) powi (- int j) = 1 / 2 ^ j"
  by (simp add: power_int_minus inverse_eq_divide)

lemma exponent_ge_one:
  assumes "1 \<le> x"
  obtains k :: nat where "exponent x = int k" "2 ^ k \<le> x" "x < 2 ^ (k + 1)"
proof -
  from assms have pos: "0 < \<lfloor>x\<rfloor>"
    by simp
  from bitlen_pos_obtain [OF pos] obtain k :: nat
    where b: "bitlen \<lfloor>x\<rfloor> = int k + 1" and lo: "2 ^ k \<le> \<lfloor>x\<rfloor>" and hi: "\<lfloor>x\<rfloor> < 2 ^ (k + 1)"
    by blast
  from assms b have e: "exponent x = int k"
    by (simp add: exponent_def)
  from lo have "(of_int (2 ^ k) :: rat) \<le> of_int \<lfloor>x\<rfloor>"
    by (simp only: of_int_le_iff)
  also have "\<dots> \<le> x"
    by (rule of_int_floor_le)
  finally have l: "2 ^ k \<le> x"
    by simp
  from hi have "\<lfloor>x\<rfloor> + 1 \<le> 2 ^ (k + 1)"
    by simp
  then have "(of_int (\<lfloor>x\<rfloor> + 1) :: rat) \<le> of_int (2 ^ (k + 1))"
    by (simp only: of_int_le_iff)
  moreover have "x < of_int (\<lfloor>x\<rfloor> + 1)"
    by (rule floor_correct [THEN conjunct2])
  ultimately have "x < of_int (2 ^ (k + 1))"
    by (rule less_le_trans [rotated])
  then have h: "x < 2 ^ (k + 1)"
    by simp
  from e l h show thesis
    by (rule that)
qed

lemma exponent_less_one:
  assumes "0 < x" "x < 1"
  obtains k :: nat where "exponent x = - (int k + 1)" "1 / 2 ^ (k + 1) \<le> x" "x < 1 / 2 ^ k"
proof -
  define y where "y = 1 / x"
  define n where "n = \<lceil>y\<rceil>"
  from assms have y1: "1 < y"
    by (simp add: y_def)
  then have "1 < n"
    by (simp add: n_def less_ceiling_iff)
  then have pos: "0 < n - 1"
    by simp
  from bitlen_pos_obtain [OF pos] obtain k :: nat
    where b: "bitlen (n - 1) = int k + 1" and lo: "2 ^ k \<le> n - 1" and hi: "n - 1 < 2 ^ (k + 1)"
    by blast
  from assms b have e: "exponent x = - (int k + 1)"
    by (simp add: exponent_def n_def y_def)
  from hi have "n \<le> 2 ^ (k + 1)"
    by simp
  then have "(of_int n :: rat) \<le> of_int (2 ^ (k + 1))"
    by (simp only: of_int_le_iff)
  moreover have "y \<le> of_int n"
    by (simp add: n_def)
  ultimately have "y \<le> of_int (2 ^ (k + 1))"
    by (rule order_trans [rotated])
  then have "1 / x \<le> 2 ^ (k + 1)"
    by (simp add: y_def)
  with assms(1) have l: "1 / 2 ^ (k + 1) \<le> x"
    by (simp add: field_simps)
  from lo have "(of_int (2 ^ k) :: rat) \<le> of_int (n - 1)"
    by (simp only: of_int_le_iff)
  moreover have "of_int (n - 1) < y"
    unfolding n_def by (simp add: ceiling_correct [THEN conjunct1])
  ultimately have "of_int (2 ^ k) < y"
    by (rule le_less_trans)
  then have "2 ^ k < 1 / x"
    by (simp add: y_def)
  with assms(1) have h: "x < 1 / 2 ^ k"
    by (simp add: field_simps)
  from e l h show thesis
    by (rule that)
qed

lemma exponent_bounds:
  assumes "0 < x"
  shows "2 powi exponent x \<le> x" "x < 2 powi (exponent x + 1)"
proof -
  have "2 powi exponent x \<le> x \<and> x < 2 powi (exponent x + 1)"
  proof (cases "1 \<le> x")
    case True
    from exponent_ge_one [OF True] obtain k :: nat
      where k: "exponent x = int k" "2 ^ k \<le> x" "x < 2 ^ (k + 1)"
      by blast
    have "int k + 1 = int (k + 1)"
      by simp
    with k show ?thesis
      by (simp only: power_int_of_nat)
  next
    case False
    with assms have "0 < x" "x < 1"
      by simp_all
    from exponent_less_one [OF this] obtain k :: nat
      where k: "exponent x = - (int k + 1)" "1 / 2 ^ (k + 1) \<le> x" "x < 1 / 2 ^ k"
      by blast
    have "- (int k + 1) = - int (k + 1)" "- (int k + 1) + 1 = - int k"
      by simp_all
    with k show ?thesis
      by (simp only: power_int_neg_nat)
  qed
  then show "2 powi exponent x \<le> x" "x < 2 powi (exponent x + 1)"
    by simp_all
qed

lemma powi2_less_imp_less:
  assumes "(2 :: rat) powi a < 2 powi b"
  shows "a < b"
proof (rule ccontr)
  assume "\<not> a < b"
  then have "b \<le> a"
    by simp
  then have "(2 :: rat) powi b \<le> 2 powi a"
    by (rule power_int_increasing) simp
  with assms show False
    by simp
qed

lemma exponent_unique:
  assumes "0 < x" "2 powi e \<le> x" "x < 2 powi (e + 1)"
  shows "exponent x = e"
proof (rule antisym)
  from exponent_bounds(1) [OF assms(1)] assms(3) have "(2 :: rat) powi exponent x < 2 powi (e + 1)"
    by (rule le_less_trans)
  then have "exponent x < e + 1"
    by (rule powi2_less_imp_less)
  then show "exponent x \<le> e"
    by simp
  from assms(2) exponent_bounds(2) [OF assms(1)] have "(2 :: rat) powi e < 2 powi (exponent x + 1)"
    by (rule le_less_trans)
  then have "e < exponent x + 1"
    by (rule powi2_less_imp_less)
  then show "e \<le> exponent x"
    by simp
qed


lemma round_to_precision_pos:
  assumes "0 < x"
  shows "round_to_precision p x =
           of_int (round_half_even (x / 2 powi (exponent x - int p + 1)))
             * 2 powi (exponent x - int p + 1)"
  using assms by (simp add: round_to_precision_def Let_def)

lemma round_to_precision_eval:
  assumes "0 < x" "2 powi e \<le> x" "x < 2 powi (e + 1)"
  shows "round_to_precision p x =
           of_int (round_half_even (x / 2 powi (e - int p + 1))) * 2 powi (e - int p + 1)"
  unfolding round_to_precision_pos [OF assms(1)] exponent_unique [OF assms] ..





lemma round_to_precision_of_nat:
  assumes "n < 2 ^ p"
  shows "round_to_precision p (of_nat n) = of_nat n"
proof (cases "n = 0")
  case True
  then show ?thesis by (simp add: round_to_precision_def)
next
  case False
  then have one: "(1 :: rat) \<le> of_nat n"
    by simp
  then have pos: "(0 :: rat) < of_nat n"
    by simp
  from exponent_ge_one [OF one] obtain k :: nat
    where k: "exponent (of_nat n :: rat) = int k" "(2 :: rat) ^ k \<le> of_nat n"
    by blast
  from k(2) have "(of_nat (2 ^ k) :: rat) \<le> of_nat n"
    by simp
  then have "2 ^ k \<le> n"
    by (simp only: of_nat_le_iff)
  from this assms have "(2 :: nat) ^ k < 2 ^ p"
    by (rule le_less_trans)
  then have kp: "k < p"
    by (rule power_less_imp_less_exp [rotated]) simp
  define j where "j = p - 1 - k"
  from kp have e: "int k - int p + 1 = - int j"
    by (simp add: j_def)
  have s: "(2 :: rat) powi (int k - int p + 1) = 1 / 2 ^ j"
    by (simp only: e power_int_neg_nat)
  have "of_nat n / (1 / 2 ^ j) = (of_int (int (n * 2 ^ j)) :: rat)"
    by simp
  then have "round_half_even (of_nat n / (1 / 2 ^ j)) = int (n * 2 ^ j)"
    by (simp only: round_half_even_of_int)
  then have "round_to_precision p (of_nat n) = of_int (int (n * 2 ^ j)) * (1 / 2 ^ j)"
    by (simp only: round_to_precision_pos [OF pos] k(1) s)
  then show ?thesis
    by simp
qed

lemma round_half_even_nearest:
  assumes "of_int k - 1 / 2 < r" "r < of_int k + 1 / 2"
  shows "round_half_even r = k"
proof (cases "of_int k \<le> r")
  case True
  with assms(2) have "\<lfloor>r\<rfloor> = k"
    by (intro floor_unique) simp_all
  with assms(2) show ?thesis
    by (simp add: round_half_even_def Let_def)
next
  case False
  with assms(1) have "\<lfloor>r\<rfloor> = k - 1"
    by (intro floor_unique) simp_all
  with assms(1) show ?thesis
    by (simp add: round_half_even_def Let_def)
qed



lemma float32_of_nat: "n < 16777216 \<Longrightarrow> float32 (of_nat n) = of_nat n"
  unfolding float32_def by (rule round_to_precision_of_nat) simp

section \<open>Facts about the equalization and the enhancer\<close>





lemma unat_8_less: "unat (p :: 8 word) < 256"
  using unsigned_less [of p, where ?'a = nat] by simp







lemma lut_loop_outside:
  assumes "i \<notin> set bins"
  shows "lut_loop hist scale bins acc lut i = lut i"
  using assms by (induction bins arbitrary: acc lut) (simp_all add: Let_def)








text \<open>
  The rounding of \<open>float\<close> shows in the table: of the row of one 0, seven 1 and seven 2
  the \<open>scale\<close> is \<open>255 / 14\<close> rounded to \<open>float\<close>, a little below \<open>255 / 14\<close>, and
  the entry for the intensity 1 is 127, where the exact product \<open>127.5\<close> would give 128.
\<close>

lemma float32_255_14: "float32 (255 / 14) = 9549531 / 524288"
proof -
  have "round_to_precision 24 (255 / 14 :: rat) =
          of_int (round_half_even ((255 / 14) / 2 powi (4 - int 24 + 1)))
            * 2 powi (4 - int 24 + 1)"
    by (rule round_to_precision_eval) simp_all
  moreover have "round_half_even ((255 / 14) / 2 powi (4 - int 24 + 1)) = 9549531"
    by (rule round_half_even_nearest) simp_all
  ultimately show ?thesis
    by (simp add: float32_def)
qed

lemma float32_7_scale_14: "float32 (66846717 / 524288) = 16711679 / 131072"
proof -
  have "round_to_precision 24 (66846717 / 524288 :: rat) =
          of_int (round_half_even ((66846717 / 524288) / 2 powi (6 - int 24 + 1)))
            * 2 powi (6 - int 24 + 1)"
    by (rule round_to_precision_eval) simp_all
  moreover have "round_half_even ((66846717 / 524288) / 2 powi (6 - int 24 + 1)) = 16711679"
    by (rule round_half_even_nearest) simp_all
  ultimately show ?thesis
    by (simp add: float32_def)
qed

lemma cvRound_7_scale_14: "cvRound (16711679 / 131072) = 127"
  unfolding cvRound_def by (rule round_half_even_nearest) simp_all

lemma float32_numerals_14: "float32 7 = 7" "float32 14 = 14"
  using float32_of_nat [of 7] float32_of_nat [of 14] by simp_all

lemma equalizeHist_rounding_example:
  "data (equalizeHist \<lparr>rows = 1, cols = 15, data = 0 # replicate 7 1 @ replicate 7 2\<rparr>) ! 1 = 127"
proof -
  define xs :: "8 word list" where "xs = 0 # replicate 7 1 @ replicate 7 2"
  have h: "calcHist xs 0 = 1" "calcHist xs (Suc 0) = 7" "length xs = 15"
    by (simp_all add: xs_def calcHist_def filter_replicate)
  have fb: "first_bin (calcHist xs) 0 = 0"
    by (subst first_bin.simps) (simp add: h)
  have up: "[Suc 0 ..< 256] = 1 # [2 ..< 256]"
    by (subst upt_conv_Cons) (simp_all add: numeral_2_eq_2 del: upt_rec_numeral)
  have "equalize_lut xs 1 = 127"
    unfolding equalize_lut_def Let_def fb up
    by (simp add: Let_def lut_loop_outside h saturate_uchar_def float32_numerals_14
        float32_255_14 float32_7_scale_14 cvRound_7_scale_14 del: upt_rec_numeral)
  moreover have "equalizeHist \<lparr>rows = 1, cols = 15, data = xs\<rparr>
                   = \<lparr>rows = 1, cols = 15, data = map (\<lambda>p. equalize_lut xs (unat p)) xs\<rparr>"
    by (simp add: equalizeHist_def Let_def fb h map_ndarray_def)
  ultimately show ?thesis
    unfolding xs_def [symmetric] by (simp add: xs_def nth_append)
qed

lemma first_bin_least:
  assumes "k < 256" "hist k \<noteq> 0" "\<And>j. j < k \<Longrightarrow> hist j = 0" "i \<le> k"
  shows "first_bin hist i = k"
  using assms(4)
proof (induction "k - i" arbitrary: i)
  case 0
  then have "i = k" by simp
  with assms(2) show ?case
    by (subst first_bin.simps) simp
next
  case (Suc m)
  then have "i < k" by simp
  with assms(1,3) have "i < 256" "hist i = 0" by simp_all
  moreover from Suc.hyps(2) \<open>i < k\<close> have "first_bin hist (Suc i) = k"
    by (intro Suc.hyps(1)) simp_all
  ultimately show ?case
    by (subst first_bin.simps) simp
qed

lemma calcHist_replicate:
  "calcHist (replicate n c) i = (if i = unat c then n else 0)"
  by (auto simp: calcHist_def filter_replicate)

lemma equalizeHist_constant:
  assumes "0 < n"
  shows "equalizeHist \<lparr>rows = r, cols = k, data = replicate n c\<rparr>
           = \<lparr>rows = r, cols = k, data = replicate n c\<rparr>"
proof -
  have fb: "first_bin (calcHist (replicate n c)) 0 = unat c"
    using assms by (intro first_bin_least) (simp_all add: calcHist_replicate unat_8_less)
  from assms have ne: "replicate n c \<noteq> []"
    by simp
  show ?thesis
    using ne by (simp add: equalizeHist_def Let_def fb calcHist_replicate map_ndarray_def)
qed

lemma constant_image_full:
  assumes "0 < r" "0 < k"
  shows "constant_image (full r k v)"
  using assms by (simp add: constant_image_def is_image_def full_def list_all_iff)

lemma map_ndarray_full: "map_ndarray f (full r k v) = full r k (f v)"
  by (simp add: map_ndarray_def full_def)

lemma equalizeHist_full:
  assumes "0 < r" "0 < k"
  shows "equalizeHist (full r k c) = full r k c"
  using assms by (simp add: full_def equalizeHist_constant)

lemma enhance_images_full:
  assumes "0 < r" "0 < k"
  shows "enhance_images u (full r k v) (full r k w) = Inr (full r k 0, full r k 0)"
  using assms
  by (simp add: enhance_images_def min_max_normalization_constant constant_image_full
      map_ndarray_full equalizeHist_full)

lemma map_ndarray_constant:
  assumes "is_image img"
  shows "map_ndarray (\<lambda>_. c) img = full (rows img) (cols img) c"
  using assms by (simp add: map_ndarray_def full_def is_image_def map_replicate_const)

text \<open>
  Claim C4. For a constant image the normalization returns the all-zero \<open>uint8\<close> image
  of the same shape and raises nothing. The code has no branch for \<open>max == min\<close>: every
  quotient is \<open>0 / 0\<close>, which numpy evaluates to \<open>NaN\<close> with a warning, \<open>np.interp\<close>
  hands the \<open>NaN\<close> on (lemma \<open>min_max_float_constant\<close>), and the conversion to \<open>uint8\<close>
  makes 0 of it.
\<close>

theorem min_max_normalization_constant_image:
  fixes img :: "rat ndarray"
  assumes "constant_image img"
  shows "min_max_normalization u img = Inr (full (rows img) (cols img) 0)"
proof -
  from assms have "is_image img"
    by (simp add: constant_image_def)
  then have "map_ndarray (\<lambda>_. 0 :: 8 word) img = full (rows img) (cols img) 0"
    by (rule map_ndarray_constant)
  with min_max_normalization_constant [OF assms, of u] show ?thesis
    by simp
qed

theorem min_max_normalization_constant_image_witness:
  "constant_image (full 2 2 (5 :: rat))
   \<and> min_max_normalization (\<lambda>_. 255) (full 2 2 5) = Inr (full 2 2 0)"
proof -
  have h: "constant_image (full 2 2 (5 :: rat))"
    by (rule constant_image_full) simp_all
  from h min_max_normalization_constant_image [OF h, of "\<lambda>_. 255"] show ?thesis
    by (simp add: full_def)
qed

text \<open>
  Claim C8. Separating the 4 x 4 image of samples 100 and the 4 x 4 image of samples 50
  yields water 75 and fat 25 at every sample. Enhancing these two constant images yields
  two all-zero images: the normalization of a constant image is all-zero (the quotient
  \<open>0 / 0\<close> is \<open>NaN\<close>, which the conversion to \<open>uint8\<close> takes to 0), and the
  equalization fills an image of one intensity with that intensity.
\<close>

theorem end_to_end_constant_4x4:
  "dixon_algorithm (full 4 4 100) (full 4 4 50) = Inr (full 4 4 75, full 4 4 25)
   \<and> enhance_images u (full 4 4 75) (full 4 4 25) = Inr (full 4 4 0, full 4 4 0)"
proof -
  have "is_image (full 4 4 (100 :: 8 word))" "is_image (full 4 4 (50 :: 8 word))"
    "shape (full 4 4 (100 :: 8 word)) = shape (full 4 4 (50 :: 8 word))"
    by (simp_all add: is_image_def shape_def full_def)
  from dixon_algorithm_same_shape [OF this]
  have "dixon_algorithm (full 4 4 100) (full 4 4 50) = Inr (full 4 4 75, full 4 4 25)"
    by (simp add: full_def saturate_add_def saturate_subtract_def uint8_value_def)
  then show ?thesis
    by (simp add: enhance_images_full)
qed

section \<open>Facts about reading the files and the driver\<close>

lemma read_dicom_files_outcomes:
  "(\<exists>a b. read_dicom_files fs p q = Inr (Some a, Some b))
   \<or> read_dicom_files fs p q = Inr (None, None)
   \<or> (\<exists>e. read_dicom_files fs p q = Inl e \<and> \<not> caught e)"
  by (simp add: read_dicom_files_def split: sum.splits)

lemma read_dicom_files_all_or_nothing:
  assumes "read_dicom_files fs p q = Inr (a, b)"
  shows "a = None \<longleftrightarrow> b = None"
  using assms by (auto simp: read_dicom_files_def split: sum.splits if_splits)

lemma main_returns_early:
  assumes "read_dicom_files fs in_phase_file out_phase_file = Inr (a, b)" "a = None \<or> b = None"
  shows "main fs u blur = Inr None"
  using assms by (simp add: main_def)

lemma main_reads_first:
  assumes "read_dicom_files fs in_phase_file out_phase_file = Inl e"
  shows "main fs u blur = Inl e"
  using assms by (simp add: main_def)

text \<open>
  Claim C10 at a read that raises an exception other than the two caught ones: the
  exception leaves \<open>read_dicom_files\<close>, which then returns neither both arrays nor
  \<open>(None, None)\<close>. The first read is of a directory; the second has an in-phase file
  that reads well and an out-phase file that may not be read.
\<close>

theorem read_dicom_files_uncaught:
  "read_dicom_files (\<lambda>p. if p = ''scans'' then Inl IsADirectoryError else Inl FileNotFoundError)
     ''scans'' ''1-05.dcm'' = Inl IsADirectoryError
   \<and> read_dicom_files (\<lambda>p. if p = ''1-06.dcm'' then Inr (full 2 2 7) else Inl PermissionError)
     ''1-06.dcm'' ''1-05.dcm'' = Inl PermissionError"
  by (simp add: read_dicom_files_def caught_def)

end
